theory Spec2Isabelle
  imports Main "HOL-Library.Word"
begin

unbundle bit_operations_syntax

section \<open>Machine types\<close>

text \<open>
  The sources are C++ for 64-bit Linux: \<open>uint32_t\<close> and \<open>int\<close> are 32-bit words,
  \<open>uint64_t\<close>, \<open>size_t\<close>, \<open>uintptr_t\<close>, \<open>long\<close> and every pointer are 64-bit words.
  A pointer is the address it holds; \<open>nullptr\<close> is address 0. Signed types are read
  with \<open>sint\<close> and compared with \<open>\<le>s\<close>.
\<close>

type_synonym uint32_t = "32 word"
type_synonym uint64_t = "64 word"
type_synonym size_t = "64 word"
type_synonym uintptr_t = "64 word"
type_synonym long = "64 word"
type_synonym c_int = "32 word"

section \<open>core/inc/driver.h\<close>

subsection \<open>Value types\<close>

text \<open>\<open>struct DriverVersionInfo { uint32_t major; uint32_t minor; }\<close>\<close>

record DriverVersionInfo =
  major :: uint32_t
  minor :: uint32_t

text \<open>\<open>enum class DriverType { XDNA = 0, KFD, NUM_DRIVER_TYPES }\<close>\<close>

datatype DriverType = XDNA | KFD | NUM_DRIVER_TYPES

text \<open>\<open>struct ShareableHandle { uint64_t handle{}; bool IsValid() const; }\<close>\<close>

record ShareableHandle =
  handle :: uint64_t

text \<open>
  \<open>bool IsValid() const { return handle != 0; }\<close>. The member function is \<open>const\<close>
  and its body only reads the field, so it is a function from the handle to a truth
  value: there is no state for it to return changed.
\<close>

definition IsValid :: "ShareableHandle \<Rightarrow> bool" where
  "IsValid h = (handle h \<noteq> 0)"

text \<open>A default-constructed handle: \<open>uint64_t handle{}\<close> value-initialises the field.\<close>

definition ShareableHandle_new :: ShareableHandle where
  "ShareableHandle_new = \<lparr>handle = 0\<rparr>"

subsection \<open>Access permissions and protection flags\<close>

text \<open>
  Modelled from the spec: the enumeration \<open>hsa_access_permission_t\<close>, which
  \<open>inc/hsa.h\<close> declares and the available sources only use. Its four enumerators NONE,
  RO, WO and RW are pairwise distinct values; they carry the numbers 0 to 3 that the HSA
  header gives them. A value of the enumeration is the 32-bit integer that represents it,
  so that values other than the four enumerators exist, as they do in C++.
\<close>

type_synonym hsa_access_permission_t = "32 word"

definition HSA_ACCESS_PERMISSION_NONE :: hsa_access_permission_t where
  "HSA_ACCESS_PERMISSION_NONE = 0"

definition HSA_ACCESS_PERMISSION_RO :: hsa_access_permission_t where
  "HSA_ACCESS_PERMISSION_RO = 1"

definition HSA_ACCESS_PERMISSION_WO :: hsa_access_permission_t where
  "HSA_ACCESS_PERMISSION_WO = 2"

definition HSA_ACCESS_PERMISSION_RW :: hsa_access_permission_t where
  "HSA_ACCESS_PERMISSION_RW = 3"

text \<open>
  Modelled from the spec: the protection flags \<open>PROT_NONE\<close> ("no access"),
  \<open>PROT_READ\<close> and \<open>PROT_WRITE\<close> of the system header \<open>sys/mman.h\<close>, with their
  Linux values.
\<close>

definition PROT_NONE :: c_int where
  "PROT_NONE = 0"

definition PROT_READ :: c_int where
  "PROT_READ = 1"

definition PROT_WRITE :: c_int where
  "PROT_WRITE = 2"

text \<open>
  \<open>Driver::PermissionsToMmapFlags\<close> (driver.h): a \<open>switch\<close> whose cases are tried
  in the order written; \<open>case HSA_ACCESS_PERMISSION_NONE\<close> falls through to
  \<open>default\<close>.
\<close>

definition Driver_PermissionsToMmapFlags :: "hsa_access_permission_t \<Rightarrow> c_int" where
  "Driver_PermissionsToMmapFlags perms =
     (if perms = HSA_ACCESS_PERMISSION_RO then PROT_READ
      else if perms = HSA_ACCESS_PERMISSION_WO then PROT_WRITE
      else if perms = HSA_ACCESS_PERMISSION_RW then PROT_READ OR PROT_WRITE
      else if perms = HSA_ACCESS_PERMISSION_NONE then PROT_NONE
      else PROT_NONE)"

subsection \<open>The driver object\<close>

text \<open>
  The data members of \<open>class Driver\<close>: \<open>kernel_driver_type_\<close>, \<open>version_\<close>,
  \<open>devnode_name_\<close> and \<open>fd_\<close>. An Isabelle name cannot end in an underscore, so
  the fields drop the trailing one.
\<close>

record Driver =
  kernel_driver_type :: DriverType
  version :: DriverVersionInfo
  devnode_name :: string
  fd :: c_int

text \<open>\<open>std::numeric_limits<uint32_t>::max()\<close>\<close>

definition uint32_max :: uint32_t where
  "uint32_max = 4294967295"

text \<open>
  A newly constructed driver. The header declares the constructor
  \<open>Driver(DriverType kernel_driver_type, std::string devnode_name)\<close> and gives the
  default member initialisers
  \<open>version_{numeric_limits<uint32_t>::max(), numeric_limits<uint32_t>::max()}\<close> and
  \<open>fd_ = -1\<close>. The two \<open>const\<close> members have no initialiser of their own, so the
  constructor initialises them, from its two arguments; the available sources do not
  hold its definition, and in keeping with the spec ("constructed with type+devnode",
  version "defaults to unknown") the other two members keep their default member
  initialisers.
\<close>

definition Driver_new :: "DriverType \<Rightarrow> string \<Rightarrow> Driver" where
  "Driver_new driver_type name =
     \<lparr>kernel_driver_type = driver_type,
      version = \<lparr>major = uint32_max, minor = uint32_max\<rparr>,
      devnode_name = name,
      fd = - 1\<rparr>"

text \<open>\<open>const DriverVersionInfo &Version() const { return version_; }\<close>\<close>

definition Version :: "Driver \<Rightarrow> DriverVersionInfo" where
  "Version d = version d"

section \<open>core/util/memory.h\<close>

text \<open>The free function \<open>rocr::PermissionsToMmapFlags\<close>, a second copy of the switch.\<close>

definition PermissionsToMmapFlags :: "hsa_access_permission_t \<Rightarrow> c_int" where
  "PermissionsToMmapFlags perms =
     (if perms = HSA_ACCESS_PERMISSION_RO then PROT_READ
      else if perms = HSA_ACCESS_PERMISSION_WO then PROT_WRITE
      else if perms = HSA_ACCESS_PERMISSION_RW then PROT_READ OR PROT_WRITE
      else if perms = HSA_ACCESS_PERMISSION_NONE then PROT_NONE
      else PROT_NONE)"

section \<open>core/inc/amd_xdna_driver.h\<close>

subsection \<open>The cache-flush helper\<close>

text \<open>
  \<open>clflush_data(const void *base, size_t offset, size_t len)\<close> has three effects
  outside its arguments: it reads and writes its function-local
  \<open>static long cacheline_size\<close>, it may call \<open>sysconf(_SC_LEVEL1_DCACHE_LINESIZE)\<close>,
  and it executes \<open>_mm_clflush\<close> on a sequence of addresses. A call is therefore a
  function of the value of the static before the call, of the answer \<open>sysconf\<close> gives if
  it is asked during this call, and of the three arguments; its outcome is the value of
  the static after the call, whether \<open>sysconf\<close> was asked, and the addresses handed to
  \<open>_mm_clflush\<close>, in order.
\<close>

record clflush_outcome =
  cacheline_size :: long
  sysconf_called :: bool
  flushed :: "uintptr_t list"

text \<open>
  The loop
  \<open>do { _mm_clflush(cur); cur += cacheline_size; } while (cur <= (const char *)lastline);\<close>
  on 64-bit addresses, whose addition wraps around. The comparison is one of pointers,
  hence unsigned. For some arguments the condition never becomes false; the loop is a
  partial function and \<open>None\<close> stands for a call that does not return.
\<close>

partial_function (option) clflush_loop ::
  "uintptr_t \<Rightarrow> long \<Rightarrow> uintptr_t \<Rightarrow> uintptr_t list \<Rightarrow> uintptr_t list option" where
  "clflush_loop cur line_size lastline issued =
     (if cur + line_size \<le> lastline
      then clflush_loop (cur + line_size) line_size lastline (issued @ [cur])
      else Some (issued @ [cur]))"

text \<open>
  The part of \<open>clflush_data\<close> after the cache-line size is known:
  \<open>cur = base + offset\<close>,
  \<open>lastline = (uintptr_t)(cur + len - 1) | (cacheline_size - 1)\<close>, then the loop.
\<close>

definition clflush_lines ::
  "long \<Rightarrow> bool \<Rightarrow> uintptr_t \<Rightarrow> size_t \<Rightarrow> size_t \<Rightarrow> clflush_outcome option" where
  "clflush_lines line_size asked base offset len =
     (let cur = base + offset;
          lastline = (cur + len - 1) OR (line_size - 1)
      in map_option
           (\<lambda>fl. \<lparr>cacheline_size = line_size, sysconf_called = asked, flushed = fl\<rparr>)
           (clflush_loop cur line_size lastline []))"

text \<open>
  \<open>clflush_data static sz base offset len\<close>: \<open>static\<close> is the value of
  \<open>cacheline_size\<close> before the call and \<open>sz\<close> the answer of \<open>sysconf\<close>.
  \<open>if (!cacheline_size) { long sz = sysconf(...); if (sz <= 0) return; cacheline_size = sz; }\<close>:
  the comparison \<open>sz <= 0\<close> is signed, and the early return leaves the static at 0.
\<close>

definition clflush_data ::
  "long \<Rightarrow> long \<Rightarrow> uintptr_t \<Rightarrow> size_t \<Rightarrow> size_t \<Rightarrow> clflush_outcome option" where
  "clflush_data static sz base offset len =
     (if static = 0 then
        (if sz \<le>s 0
         then Some \<lparr>cacheline_size = static, sysconf_called = True, flushed = []\<rparr>
         else clflush_lines sz True base offset len)
      else clflush_lines static False base offset len)"

text \<open>
  Successive calls in one process: the static of each call is the one the call before
  left. A call is given as the answer \<open>sysconf\<close> would give during it and its three
  arguments. The static starts at 0 (\<open>static long cacheline_size = 0\<close>).
\<close>

type_synonym clflush_call = "long \<times> uintptr_t \<times> size_t \<times> size_t"

fun clflush_calls :: "long \<Rightarrow> clflush_call list \<Rightarrow> clflush_outcome list option" where
  "clflush_calls static [] = Some []"
| "clflush_calls static ((sz, base, offset, len) # calls) =
     (case clflush_data static sz base offset len of
        None \<Rightarrow> None
      | Some r \<Rightarrow> map_option ((#) r) (clflush_calls (cacheline_size r) calls))"

text \<open>
  Cache lines. \<open>_mm_clflush(p)\<close> flushes the cache line that contains address \<open>p\<close>.
  With lines of \<open>L\<close> bytes, the line of an address is its quotient by \<open>L\<close>, and the lines
  that overlap the \<open>n\<close> bytes from address \<open>s\<close> on are the lines of these bytes.
\<close>

definition cache_line :: "nat \<Rightarrow> uintptr_t \<Rightarrow> nat" where
  "cache_line L a = unat a div L"

definition lines_overlapping :: "nat \<Rightarrow> nat \<Rightarrow> nat \<Rightarrow> nat set" where
  "lines_overlapping L s n = (\<lambda>a. a div L) ` {s ..< s + n}"

subsection \<open>The XDNA driver\<close>

text \<open>
  Modelled from the spec: the status a driver operation reports, with the kinds that the
  spec's error taxonomy names. The type \<open>hsa_status_t\<close> is declared in \<open>inc/hsa.h\<close>,
  which the available sources only use.
\<close>

datatype hsa_status_t =
  Success | InvalidArgument | NotFound | DeviceBusy | PermissionDenied | OutOfMemory
  | AlreadyOpen | NotOpen | DriverUnsupported | InternalError

text \<open>
  \<open>class XdnaDriver final : public core::Driver\<close> with its data members
  \<open>vmem_handle_mappings\<close> (\<open>unordered_map<uint32_t, void *>\<close>), \<open>vmem_addr_mappings\<close>
  (\<open>unordered_map<void *, uint32_t>\<close>), \<open>dev_heap_parent\<close> and \<open>dev_heap_aligned\<close>.
\<close>

record XdnaDriver = Driver +
  vmem_handle_mappings :: "uint32_t \<rightharpoonup> uintptr_t"
  vmem_addr_mappings :: "uintptr_t \<rightharpoonup> uint32_t"
  dev_heap_parent :: uintptr_t
  dev_heap_aligned :: uintptr_t

text \<open>
  \<open>static constexpr size_t dev_heap_size = 64 * 1024 * 1024\<close> and
  \<open>static constexpr size_t dev_heap_align = 64 * 1024 * 1024\<close>.
\<close>

definition dev_heap_size :: size_t where
  "dev_heap_size = 64 * 1024 * 1024"

definition dev_heap_align :: size_t where
  "dev_heap_align = 64 * 1024 * 1024"

text \<open>
  A newly constructed XDNA driver. The header declares the constructor
  \<open>XdnaDriver(std::string devnode_name)\<close>; the two tables are default-constructed, hence
  empty, and both heap pointers are \<open>nullptr\<close> by their default member initialisers.
  The available sources do not hold the constructor's definition; the base object is
  the driver of type \<open>XDNA\<close> for the device node given.
\<close>

definition XdnaDriver_new :: "string \<Rightarrow> XdnaDriver" where
  "XdnaDriver_new name =
     Driver.extend (Driver_new XDNA name)
       \<lparr>vmem_handle_mappings = Map.empty, vmem_addr_mappings = Map.empty,
        dev_heap_parent = 0, dev_heap_aligned = 0\<rparr>"

text \<open>
  Modelled from the spec: the body of \<open>static uint64_t GetDevHeapByteSize()\<close>, which the
  header declares and the available sources do not define. It "exposes the fixed
  device-heap size (64 MiB) as a queryable constant". It is a static member function
  without parameters, so no driver object reaches it.
\<close>

definition GetDevHeapByteSize :: uint64_t where
  "GetDevHeapByteSize = dev_heap_size"

text \<open>
  Modelled from the spec: what the operating system and the kernel driver answer while
  the device heap is set up. \<open>parent_mapping\<close> is the base address the OS chose for the
  anonymous mapping, or \<open>None\<close> when the mapping failed, and \<open>registered\<close> says
  whether the kernel driver accepted the heap.
\<close>

record heap_env =
  parent_mapping :: "uintptr_t option"
  registered :: bool

text \<open>
  Modelled from the spec: the size of the parent mapping, "an anonymous mapping of size
  \<open>dev_heap_size + dev_heap_align\<close>".
\<close>

definition dev_heap_parent_size :: size_t where
  "dev_heap_parent_size = dev_heap_size + dev_heap_align"

text \<open>
  Modelled from the spec: "the first address inside the parent mapping that is a multiple
  of \<open>dev_heap_align\<close>", computed for a power of two \<open>a\<close> by rounding \<open>p\<close> up.
\<close>

definition AlignUp :: "uintptr_t \<Rightarrow> size_t \<Rightarrow> uintptr_t" where
  "AlignUp p a = (p + (a - 1)) AND NOT (a - 1)"

text \<open>
  Modelled from the spec: the body of \<open>InitDeviceHeap\<close>, which the header declares and
  the available sources do not define. (1) Request an anonymous mapping of
  \<open>dev_heap_size + dev_heap_align\<close> bytes as \<open>dev_heap_parent\<close>; (2) compute the first
  address inside the parent mapping that is a multiple of \<open>dev_heap_align\<close>; (3) that
  address, for \<open>dev_heap_size\<close> bytes, becomes \<open>dev_heap_aligned\<close>; (4) register it
  with the kernel driver. Setting up the heap fails if the mapping or the registration
  fails, and a failed set-up unmaps what it had mapped, so that the driver keeps no
  pointer to it.
\<close>

definition InitDeviceHeap :: "heap_env \<Rightarrow> XdnaDriver \<Rightarrow> hsa_status_t \<times> XdnaDriver" where
  "InitDeviceHeap env d =
     (case parent_mapping env of
        None \<Rightarrow> (OutOfMemory, d)
      | Some p \<Rightarrow>
          if registered env
          then (Success, d\<lparr>dev_heap_parent := p, dev_heap_aligned := AlignUp p dev_heap_align\<rparr>)
          else (InternalError, d))"

text \<open>
  Modelled from the spec: the body of \<open>Init\<close>, which the header declares and the
  available sources do not define. It "probes version and prepares the device heap" and
  "returns failure if version query fails or device-heap setup fails".
  \<open>queried_version\<close> is the kernel driver's answer to the version query, \<open>None\<close> when
  the query failed.
\<close>

definition Init ::
  "DriverVersionInfo option \<Rightarrow> heap_env \<Rightarrow> XdnaDriver \<Rightarrow> hsa_status_t \<times> XdnaDriver" where
  "Init queried_version env d =
     (case queried_version of
        None \<Rightarrow> (DriverUnsupported, d)
      | Some v \<Rightarrow> InitDeviceHeap env (d\<lparr>version := v\<rparr>))"

text \<open>
  Modelled from the spec: the kernel driver's answer to the creation or import of a
  buffer object. The tables are "keyed on values produced by the kernel driver when a
  buffer object is created/imported": \<open>BoCreated h a\<close> is the answer with handle \<open>h\<close>
  for a buffer object mapped at address \<open>a\<close>, and \<open>BoFailed s\<close> the refusal with
  status \<open>s\<close>.
\<close>

datatype bo_answer = BoCreated uint32_t uintptr_t | BoFailed hsa_status_t

text \<open>
  Modelled from the spec: "every successful allocate/import inserts one entry pair; every
  successful free/release removes it". The pair goes into both tables and comes out of
  both.
\<close>

definition record_mapping :: "uint32_t \<Rightarrow> uintptr_t \<Rightarrow> XdnaDriver \<Rightarrow> XdnaDriver" where
  "record_mapping h a d =
     d\<lparr>vmem_handle_mappings := (vmem_handle_mappings d)(h \<mapsto> a),
       vmem_addr_mappings := (vmem_addr_mappings d)(a \<mapsto> h)\<rparr>"

definition remove_mapping :: "uint32_t \<Rightarrow> uintptr_t \<Rightarrow> XdnaDriver \<Rightarrow> XdnaDriver" where
  "remove_mapping h a d =
     d\<lparr>vmem_handle_mappings := (vmem_handle_mappings d)(h := None),
       vmem_addr_mappings := (vmem_addr_mappings d)(a := None)\<rparr>"

text \<open>
  Modelled from the spec: the body of \<open>AllocateMemory\<close>, which the header declares and
  the available sources do not define. An allocation "must record the resulting
  handle/address pair in the handle-mapping tables before returning success", and "a
  failed allocation must not leave a partial handle-mapping entry". The memory region,
  the flags, the size and the node of the request decide the kernel driver's answer and
  nothing else here; the result is the status and the pointer written to \<open>*mem\<close>.
\<close>

definition AllocateMemory ::
  "bo_answer \<Rightarrow> XdnaDriver \<Rightarrow> (hsa_status_t \<times> uintptr_t option) \<times> XdnaDriver" where
  "AllocateMemory answer d =
     (case answer of
        BoCreated h a \<Rightarrow> ((Success, Some a), record_mapping h a d)
      | BoFailed s \<Rightarrow> ((s, None), d))"

text \<open>
  Modelled from the spec: the body of \<open>FreeMemory(void *mem, size_t size)\<close>, which the
  header declares and the available sources do not define. A free "must remove the
  corresponding handle-mapping entries" and "fails if \<open>mem\<close> was never allocated by this
  driver instance (precondition violation), reported rather than silently ignored".
\<close>

definition FreeMemory :: "uintptr_t \<Rightarrow> size_t \<Rightarrow> XdnaDriver \<Rightarrow> hsa_status_t \<times> XdnaDriver" where
  "FreeMemory mem size' d =
     (case vmem_addr_mappings d mem of
        None \<Rightarrow> (InvalidArgument, d)
      | Some h \<Rightarrow> (Success, remove_mapping h mem d))"

text \<open>
  Modelled from the spec: the import of a dma-buf, which "binds an externally supplied
  descriptor to a new \<open>ShareableHandle\<close>" and, when it succeeds, inserts one entry
  pair. The 64-bit shareable handle carries the 32-bit driver handle.
\<close>

definition ImportDMABuf ::
  "bo_answer \<Rightarrow> XdnaDriver \<Rightarrow> (hsa_status_t \<times> ShareableHandle) \<times> XdnaDriver" where
  "ImportDMABuf answer d =
     (case answer of
        BoCreated h a \<Rightarrow> ((Success, \<lparr>handle = ucast h\<rparr>), record_mapping h a d)
      | BoFailed s \<Rightarrow> ((s, \<lparr>handle = 0\<rparr>), d))"

text \<open>
  Modelled from the spec: the release of a shareable handle, which removes the entry
  pair of the handle; "after success \<open>handle.IsValid()\<close> must be false".
\<close>

definition ReleaseShareableHandle ::
  "ShareableHandle \<Rightarrow> XdnaDriver \<Rightarrow> (hsa_status_t \<times> ShareableHandle) \<times> XdnaDriver" where
  "ReleaseShareableHandle sh d =
     (case vmem_handle_mappings d (ucast (handle sh)) of
        None \<Rightarrow> ((InvalidArgument, sh), d)
      | Some a \<Rightarrow> ((Success, sh\<lparr>handle := 0\<rparr>), remove_mapping (ucast (handle sh)) a d))"

text \<open>
  A sequence of calls on one driver instance: each call is an allocation or an import,
  given by the kernel driver's answer, a free, given by its pointer and size, or a
  release, given by its handle. \<open>driver_states d calls\<close> lists the state of the driver
  after each call of the sequence, in order.
\<close>

datatype driver_call =
  Allocate bo_answer | Free uintptr_t size_t | Import bo_answer | Release ShareableHandle

fun driver_step :: "driver_call \<Rightarrow> XdnaDriver \<Rightarrow> XdnaDriver" where
  "driver_step (Allocate answer) d = snd (AllocateMemory answer d)"
| "driver_step (Free mem size') d = snd (FreeMemory mem size' d)"
| "driver_step (Import answer) d = snd (ImportDMABuf answer d)"
| "driver_step (Release sh) d = snd (ReleaseShareableHandle sh d)"

fun driver_states :: "XdnaDriver \<Rightarrow> driver_call list \<Rightarrow> XdnaDriver list" where
  "driver_states d [] = []"
| "driver_states d (c # calls) = driver_step c d # driver_states (driver_step c d) calls"

text \<open>
  The two tables are inverse to each other: handle \<open>h\<close> maps to address \<open>a\<close> in the one
  exactly when \<open>a\<close> maps to \<open>h\<close> in the other.
\<close>

definition tables_inverse :: "XdnaDriver \<Rightarrow> bool" where
  "tables_inverse d =
     (\<forall>h a. (vmem_handle_mappings d h = Some a) = (vmem_addr_mappings d a = Some h))"

text \<open>
  Modelled from the spec: what the kernel driver and the OS guarantee about the pairs
  they produce, "no handle value is reused for a live address and vice versa while an
  entry exists". The handle of a new buffer object is not the handle of a live one, and
  its address is not the address of a live one. \<open>kernel_fresh d calls\<close> says that every
  answer in the sequence meets this guarantee in the state in which it is given.
\<close>

definition fresh_answer :: "bo_answer \<Rightarrow> XdnaDriver \<Rightarrow> bool" where
  "fresh_answer answer d =
     (case answer of
        BoCreated h a \<Rightarrow> vmem_handle_mappings d h = None \<and> vmem_addr_mappings d a = None
      | BoFailed s \<Rightarrow> True)"

fun fresh_call :: "driver_call \<Rightarrow> XdnaDriver \<Rightarrow> bool" where
  "fresh_call (Allocate answer) d = fresh_answer answer d"
| "fresh_call (Import answer) d = fresh_answer answer d"
| "fresh_call (Free mem size') d = True"
| "fresh_call (Release sh) d = True"

fun kernel_fresh :: "XdnaDriver \<Rightarrow> driver_call list \<Rightarrow> bool" where
  "kernel_fresh d [] = True"
| "kernel_fresh d (c # calls) = (fresh_call c d \<and> kernel_fresh (driver_step c d) calls)"

section \<open>Properties of driver.h and memory.h\<close>

lemmas perm_defs =
  HSA_ACCESS_PERMISSION_NONE_def HSA_ACCESS_PERMISSION_RO_def
  HSA_ACCESS_PERMISSION_WO_def HSA_ACCESS_PERMISSION_RW_def

lemmas prot_defs = PROT_NONE_def PROT_READ_def PROT_WRITE_def

text \<open>
  C2. The translation from access permissions to mmap protection flags is a total
  function with one result for every value of \<open>hsa_access_permission_t\<close>: RO gives
  \<open>PROT_READ\<close>, WO gives \<open>PROT_WRITE\<close>, RW gives \<open>PROT_READ | PROT_WRITE\<close>, and NONE
  as well as every value that is none of the four enumerators gives \<open>PROT_NONE\<close>.
  Both copies of the switch are covered. The three non-empty flag sets and the empty one
  are pairwise different, so the four cases are told apart by the result.
\<close>

theorem PermissionsToMmapFlags_total:
  "(\<forall>f \<in> {Driver_PermissionsToMmapFlags, PermissionsToMmapFlags}.
      f HSA_ACCESS_PERMISSION_RO = PROT_READ
    \<and> f HSA_ACCESS_PERMISSION_WO = PROT_WRITE
    \<and> f HSA_ACCESS_PERMISSION_RW = PROT_READ OR PROT_WRITE
    \<and> f HSA_ACCESS_PERMISSION_NONE = PROT_NONE
    \<and> (\<forall>perms. perms \<notin> {HSA_ACCESS_PERMISSION_RO, HSA_ACCESS_PERMISSION_WO,
                           HSA_ACCESS_PERMISSION_RW, HSA_ACCESS_PERMISSION_NONE}
           \<longrightarrow> f perms = PROT_NONE)
    \<and> (\<forall>perms. \<exists>!flags. f perms = flags))
   \<and> distinct [PROT_READ, PROT_WRITE, PROT_READ OR PROT_WRITE, PROT_NONE]"
  by (simp add: Driver_PermissionsToMmapFlags_def PermissionsToMmapFlags_def
      perm_defs prot_defs)

theorem PermissionsToMmapFlags_total_witness:
  "(7 :: hsa_access_permission_t) \<notin> {HSA_ACCESS_PERMISSION_RO, HSA_ACCESS_PERMISSION_WO,
        HSA_ACCESS_PERMISSION_RW, HSA_ACCESS_PERMISSION_NONE}
   \<and> Driver_PermissionsToMmapFlags 7 = PROT_NONE
   \<and> PermissionsToMmapFlags 7 = PROT_NONE
   \<and> Driver_PermissionsToMmapFlags HSA_ACCESS_PERMISSION_RW = 3"
proof -
  have fresh: "(7 :: hsa_access_permission_t) \<notin> {HSA_ACCESS_PERMISSION_RO,
      HSA_ACCESS_PERMISSION_WO, HSA_ACCESS_PERMISSION_RW, HSA_ACCESS_PERMISSION_NONE}"
    by (simp add: perm_defs)
  have rw: "PROT_READ OR PROT_WRITE = (3 :: c_int)"
    by (simp add: prot_defs)
  from PermissionsToMmapFlags_total fresh rw show ?thesis
    by simp
qed

text \<open>
  C9. The static member function \<open>Driver::PermissionsToMmapFlags\<close> of driver.h and the
  free function \<open>rocr::PermissionsToMmapFlags\<close> of util/memory.h return the same flags
  for every permission value.
\<close>

theorem PermissionsToMmapFlags_copies_agree:
  "Driver_PermissionsToMmapFlags perms = PermissionsToMmapFlags perms"
  by (simp add: Driver_PermissionsToMmapFlags_def PermissionsToMmapFlags_def)

text \<open>
  C6. A shareable handle is valid exactly when its \<open>handle\<close> field is not zero, that
  is, when the field read as a number is positive; a default-constructed handle is not
  valid. \<open>IsValid\<close> is a function of the handle alone and yields only the truth value,
  so evaluating it leaves the handle and everything else as they were.
\<close>

theorem IsValid_iff:
  "IsValid h = (handle h \<noteq> 0)
   \<and> IsValid h = (0 < unat (handle h))
   \<and> IsValid ShareableHandle_new = False"
  by (simp add: IsValid_def ShareableHandle_new_def unat_gt_0)

text \<open>
  C7. For a newly constructed driver, \<open>Version()\<close> is the "unknown" version: major and
  minor are both the largest \<open>uint32_t\<close> value, \<open>2^32 - 1\<close>.
\<close>

theorem Version_of_new_driver_unknown:
  "major (Version (Driver_new t name)) = uint32_max
   \<and> minor (Version (Driver_new t name)) = uint32_max
   \<and> unat uint32_max = 2 ^ 32 - 1
   \<and> (\<forall>w :: uint32_t. w \<le> uint32_max)"
proof -
  have top: "uint32_max = - 1"
    by (simp add: uint32_max_def)
  have "unat uint32_max = 2 ^ 32 - 1"
    by (simp add: uint32_max_def)
  moreover have "\<forall>w :: uint32_t. w \<le> uint32_max"
    by (simp add: top)
  ultimately show ?thesis
    by (simp add: Version_def Driver_new_def)
qed

section \<open>Properties of the cache-flush helper\<close>

subsection \<open>Words of the form \<open>2 ^ k\<close> and \<open>2 ^ k - 1\<close>\<close>

lemma or_mask_nat: "((n::nat) OR mask k) = (n div 2^k) * 2^k + (2^k - 1)"
proof -
  have "n OR mask k = push_bit k (drop_bit k n) OR mask k"
    by (rule bit_eqI) (auto simp add: bit_simps)
  also have "\<dots> = push_bit k (drop_bit k n) + mask k"
    by (rule disjunctive_add_eq_or [symmetric]) (rule bit_eqI, auto simp add: bit_simps)
  finally show ?thesis
    by (simp add: push_bit_eq_mult drop_bit_eq_div mask_eq_exp_minus_1)
qed

lemma unat_or_line_mask:
  fixes w :: "64 word"
  assumes "k < 64"
  shows "unat (w OR (2 ^ k - 1)) = (unat w div 2 ^ k) * 2 ^ k + (2 ^ k - 1)"
proof -
  have "(2 ^ k - 1 :: 64 word) = mask k"
    by (simp add: mask_eq_exp_minus_1)
  moreover have "unat (mask k :: 64 word) = mask k"
    using assms by (simp add: unat_eq_nat_uint uint_mask_eq min_def nat_mask_eq)
  ultimately show ?thesis
    by (simp add: unsigned_or_eq or_mask_nat)
qed

lemma uint_pow2: "k < 64 \<Longrightarrow> uint (2 ^ k :: 64 word) = 2 ^ k"
  by (rule uint_2p) (simp add: word_greater_zero_iff)

lemma unat_pow2: "k < 64 \<Longrightarrow> unat (2 ^ k :: 64 word) = 2 ^ k"
  by (simp add: unat_eq_nat_uint uint_pow2 nat_power_eq)

lemma sint_pow2:
  assumes "k < 63" shows "sint (2 ^ k :: 64 word) = 2 ^ k"
proof -
  have u: "uint (2 ^ k :: 64 word) = 2 ^ k"
    using assms by (simp add: uint_pow2)
  have lt: "(2::int) ^ k < 2 ^ 63"
    by (rule power_strict_increasing) (use assms in simp_all)
  have pos: "- (2 ^ 63) \<le> (2::int) ^ k"
    by (rule order_trans [of _ 0]) simp_all
  have "signed_take_bit 63 ((2::int) ^ k) = 2 ^ k"
    using pos lt by (rule signed_take_bit_int_eq_self)
  then show ?thesis
    by (simp add: sint_uint u)
qed

lemma pow2_positive: "k < 63 \<Longrightarrow> \<not> ((2 ^ k :: 64 word) \<le>s 0)"
  by (simp add: word_sle_eq sint_pow2)

subsection \<open>The lines of a range\<close>

lemma lines_overlapping_interval:
  assumes L: "0 < L" and n: "0 < n"
  shows "lines_overlapping L s n = {s div L .. (s + n - 1) div L}"
proof (rule set_eqI, rule iffI)
  fix l
  assume "l \<in> lines_overlapping L s n"
  then obtain a where a: "s \<le> a" "a < s + n" "l = a div L"
    by (auto simp add: lines_overlapping_def)
  from a have "s div L \<le> a div L" and "a div L \<le> (s + n - 1) div L"
    by (simp_all add: div_le_mono)
  with a show "l \<in> {s div L .. (s + n - 1) div L}"
    by simp
next
  fix l
  assume "l \<in> {s div L .. (s + n - 1) div L}"
  then have lo: "s div L \<le> l" and hi: "l \<le> (s + n - 1) div L"
    by simp_all
  show "l \<in> lines_overlapping L s n"
  proof (cases "l = s div L")
    case True
    with n have "s \<in> {s ..< s + n}" and "s div L = l"
      by simp_all
    then show ?thesis
      unfolding lines_overlapping_def by blast
  next
    case False
    with lo have "Suc (s div L) \<le> l"
      by simp
    then have "Suc (s div L) * L \<le> l * L"
      by (rule mult_le_mono1)
    moreover have "s < Suc (s div L) * L"
      using dividend_less_times_div [OF L, of s] by (simp add: mult.commute)
    ultimately have s: "s \<le> l * L"
      by simp
    from hi have "l * L \<le> (s + n - 1) div L * L"
      by (rule mult_le_mono1)
    also have "\<dots> \<le> s + n - 1"
      by simp
    finally have "l * L < s + n"
      using n by simp
    with s have "l * L \<in> {s ..< s + n}"
      by simp
    moreover have "l * L div L = l"
      using L by simp
    ultimately show ?thesis
      unfolding lines_overlapping_def by (metis imageI)
  qed
qed

subsection \<open>The flush loop\<close>

lemma line_end_reached:
  fixes c e l :: nat
  assumes l: "0 < l" and e: "e mod l = l - 1" and d: "e div l \<le> c div l"
  shows "e < c + l"
proof -
  have "e = e div l * l + (l - 1)"
    using div_mult_mod_eq [of e l] e by simp
  moreover have "e div l * l \<le> c div l * l"
    using d by (rule mult_le_mono1)
  moreover have "c div l * l \<le> c"
    by simp
  ultimately show ?thesis
    using l by linarith
qed

lemma line_end_ahead:
  fixes c e l :: nat
  assumes l: "0 < l" and e: "e mod l = l - 1" and d: "c div l < e div l"
  shows "c + l \<le> e"
proof -
  have "e = e div l * l + (l - 1)"
    using div_mult_mod_eq [of e l] e by simp
  moreover have "Suc (c div l) * l \<le> e div l * l"
    using d by (intro mult_le_mono1) simp
  moreover have "c < Suc (c div l) * l"
    using dividend_less_times_div [OF l, of c] by (simp add: mult.commute)
  ultimately show ?thesis
    using l by simp
qed

lemma clflush_loop_lines:
  fixes cur lastline L :: "64 word"
  assumes L: "0 < unat L"
    and last: "unat lastline mod unat L = unat L - 1"
    and top: "unat lastline + unat L < 2 ^ 64"
    and le: "unat cur \<le> unat lastline"
  shows "\<exists>fl. clflush_loop cur L lastline acc = Some (acc @ fl)
            \<and> map (cache_line (unat L)) fl
                = [unat cur div unat L ..< Suc (unat lastline div unat L)]"
  using le
proof (induction "unat lastline div unat L - unat cur div unat L" arbitrary: cur acc)
  case 0
  from \<open>unat cur \<le> unat lastline\<close> have "unat cur div unat L \<le> unat lastline div unat L"
    by (rule div_le_mono)
  with 0 have same: "unat cur div unat L = unat lastline div unat L"
    by simp
  have next_cur: "unat (cur + L) = unat cur + unat L"
    using 0 top by (simp add: unat_add_lem [THEN iffD1])
  have "unat lastline < unat cur + unat L"
    using L last by (rule line_end_reached) (simp add: same)
  then have "\<not> cur + L \<le> lastline"
    by (simp add: word_le_nat_alt next_cur)
  then have "clflush_loop cur L lastline acc = Some (acc @ [cur])"
    by (subst clflush_loop.simps) simp
  moreover have "map (cache_line (unat L)) [cur]
      = [unat cur div unat L ..< Suc (unat lastline div unat L)]"
    by (simp add: cache_line_def same)
  ultimately show ?case
    by blast
next
  case (Suc n)
  then have below: "unat cur div unat L < unat lastline div unat L"
    by simp
  have next_cur: "unat (cur + L) = unat cur + unat L"
    using Suc.prems top by (simp add: unat_add_lem [THEN iffD1])
  have step: "unat cur + unat L \<le> unat lastline"
    using L last below by (rule line_end_ahead)
  then have continue: "cur + L \<le> lastline"
    by (simp add: word_le_nat_alt next_cur)
  have next_line: "unat (cur + L) div unat L = Suc (unat cur div unat L)"
    using L by (simp add: next_cur div_add_self2)
  have "n = unat lastline div unat L - unat (cur + L) div unat L"
    using Suc.hyps(2) by (simp add: next_line)
  moreover have "unat (cur + L) \<le> unat lastline"
    using step by (simp add: next_cur)
  ultimately obtain fl where
    fl: "clflush_loop (cur + L) L lastline (acc @ [cur]) = Some ((acc @ [cur]) @ fl)"
    and lines: "map (cache_line (unat L)) fl
        = [unat (cur + L) div unat L ..< Suc (unat lastline div unat L)]"
    using Suc.hyps(1) by blast
  have "clflush_loop cur L lastline acc = Some (acc @ cur # fl)"
    by (subst clflush_loop.simps) (simp add: continue fl)
  moreover have "map (cache_line (unat L)) (cur # fl)
      = [unat cur div unat L ..< Suc (unat lastline div unat L)]"
    using below by (simp add: lines next_line cache_line_def upt_conv_Cons)
  ultimately show ?case
    by blast
qed

lemma line_end_below_top:
  fixes x k :: nat
  assumes k: "k \<le> 64" and x: "x + 2 ^ k < 2 ^ 64"
  shows "x div 2 ^ k * 2 ^ k + (2 ^ k - 1) + 2 ^ k < 2 ^ 64"
proof -
  have split: "(2::nat) ^ 64 = 2 ^ (64 - k) * 2 ^ k"
    using k by (simp flip: power_add)
  have "(x + 2 ^ k) div 2 ^ k < 2 ^ (64 - k)"
    using x unfolding split by (rule less_mult_imp_div_less)
  then have "Suc (Suc (x div 2 ^ k)) \<le> 2 ^ (64 - k)"
    by (simp add: div_add_self2)
  then have "Suc (Suc (x div 2 ^ k)) * 2 ^ k \<le> 2 ^ (64 - k) * 2 ^ k"
    by (rule mult_le_mono1)
  then have "x div 2 ^ k * 2 ^ k + 2 ^ k + 2 ^ k \<le> 2 ^ 64"
    unfolding split by simp
  moreover have "(0::nat) < 2 ^ k"
    by simp
  ultimately show ?thesis
    by linarith
qed

lemma line_end_facts:
  fixes x L :: nat
  assumes L: "0 < L"
  shows "(x div L * L + (L - 1)) mod L = L - 1"
    and "(x div L * L + (L - 1)) div L = x div L"
    and "x \<le> x div L * L + (L - 1)"
proof -
  have small: "L - 1 < L"
    using L by simp
  have "(x div L * L + (L - 1)) mod L = (L - 1) mod L"
    by (rule mod_mult_self3)
  with small show "(x div L * L + (L - 1)) mod L = L - 1"
    by simp
  have "(x div L * L + (L - 1)) div L = x div L + (L - 1) div L"
    using L by (intro div_mult_self3) simp
  with small show "(x div L * L + (L - 1)) div L = x div L"
    by simp
  have "x = x div L * L + x mod L"
    by simp
  moreover have "x mod L \<le> L - 1"
    using L mod_less_divisor [of L x] by linarith
  ultimately show "x \<le> x div L * L + (L - 1)"
    by linarith
qed

lemma clflush_lines_cover:
  assumes k: "k < 64" and len: "len \<noteq> 0"
    and range: "unat base + unat offset + unat len + 2 ^ k \<le> 2 ^ 64"
  shows "\<exists>fl. clflush_lines (2 ^ k) asked base offset len
              = Some \<lparr>cacheline_size = 2 ^ k, sysconf_called = asked, flushed = fl\<rparr>
          \<and> map (cache_line (2 ^ k)) fl
              = [(unat base + unat offset) div 2 ^ k
                 ..< Suc ((unat base + unat offset + unat len - 1) div 2 ^ k)]"
proof -
  define cur where "cur = base + offset"
  define last where "last = cur + len - 1"
  define lastline where "lastline = last OR (2 ^ k - 1)"
  define L :: "64 word" where "L = 2 ^ k"
  have unat_L: "unat L = 2 ^ k"
    using k by (simp add: L_def unat_pow2)
  have len_pos: "0 < unat len"
    using len by (simp add: unat_gt_0)
  have L_pos: "(0::nat) < 2 ^ k"
    by simp
  have "unat base + unat offset < 2 ^ LENGTH(64)"
    using range len_pos L_pos by simp
  then have cur: "unat cur = unat base + unat offset"
    unfolding cur_def by (simp only: unat_add_lem)
  have len1: "unat (len - 1) = unat len - 1"
    using len by (rule unat_minus_one)
  have "unat cur + unat (len - 1) < 2 ^ LENGTH(64)"
    using range len_pos L_pos by (simp add: cur len1)
  then have "unat (cur + (len - 1)) = unat cur + unat (len - 1)"
    by (simp only: unat_add_lem)
  moreover have "last = cur + (len - 1)"
    by (simp add: last_def)
  ultimately have last: "unat last = unat base + unat offset + unat len - 1"
    using len_pos by (simp add: cur len1)
  have lastline: "unat lastline = unat last div 2 ^ k * 2 ^ k + (2 ^ k - 1)"
    unfolding lastline_def using k by (rule unat_or_line_mask)
  have "unat last + 2 ^ k < 2 ^ 64"
    using range len_pos by (simp add: last)
  with k have top: "unat lastline + unat L < 2 ^ 64"
    unfolding lastline unat_L by (intro line_end_below_top) simp_all
  have "unat cur \<le> unat last"
    using len_pos by (simp add: cur last)
  also have "\<dots> \<le> unat lastline"
    unfolding lastline by (rule line_end_facts) simp
  finally have le: "unat cur \<le> unat lastline" .
  have mod: "unat lastline mod unat L = unat L - 1"
    unfolding lastline unat_L by (rule line_end_facts) simp
  have div: "unat lastline div 2 ^ k = unat last div 2 ^ k"
    unfolding lastline by (rule line_end_facts) simp
  have "0 < unat L"
    by (simp add: unat_L)
  from clflush_loop_lines [OF this mod top le, of "[]"]
  obtain fl where fl: "clflush_loop cur L lastline [] = Some fl"
    and lines: "map (cache_line (unat L)) fl
        = [unat cur div unat L ..< Suc (unat lastline div unat L)]"
    by auto
  have "clflush_lines (2 ^ k) asked base offset len
      = Some \<lparr>cacheline_size = 2 ^ k, sysconf_called = asked, flushed = fl\<rparr>"
    using fl by (simp add: clflush_lines_def cur_def last_def lastline_def L_def)
  moreover have "map (cache_line (2 ^ k)) fl
      = [(unat base + unat offset) div 2 ^ k
         ..< Suc ((unat base + unat offset + unat len - 1) div 2 ^ k)]"
    using lines unfolding unat_L div cur last .
  ultimately show ?thesis
    by blast
qed

subsection \<open>Flushing a range\<close>

text \<open>
  C1. Let the cache-line size be known, either cached in the static or discovered by this
  call, and be \<open>L = 2 ^ k\<close>, as every cache-line size is. For a range of \<open>len \<ge> 1\<close>
  bytes that starts at \<open>base + offset\<close> and ends below the last cache line of the 64-bit
  address space, so that no address of the computation wraps around, \<open>clflush_data\<close>
  returns, and the lines it flushes are, in ascending order and once each, the line of
  the first byte, the line of the last byte and every line between them: exactly the
  lines that overlap the range. Neither \<open>len\<close> nor the start of the range need be a
  multiple of \<open>L\<close>, and \<open>len = 1\<close> is included.
\<close>

theorem clflush_data_flushes_every_overlapping_line:
  assumes size: "(if static = 0 then sz else static) = 2 ^ k" and k: "k < 63"
    and len: "len \<noteq> 0"
    and range: "unat base + unat offset + unat len + 2 ^ k \<le> 2 ^ 64"
  shows "\<exists>r. clflush_data static sz base offset len = Some r
          \<and> cacheline_size r = 2 ^ k
          \<and> map (cache_line (2 ^ k)) (flushed r)
              = [(unat base + unat offset) div 2 ^ k
                 ..< Suc ((unat base + unat offset + unat len - 1) div 2 ^ k)]
          \<and> cache_line (2 ^ k) ` set (flushed r)
              = lines_overlapping (2 ^ k) (unat base + unat offset) (unat len)"
proof -
  from k have "k < 64"
    by simp
  from clflush_lines_cover [OF this len range]
  obtain fl where
    run: "clflush_lines (2 ^ k) (static = 0) base offset len
        = Some \<lparr>cacheline_size = 2 ^ k, sysconf_called = (static = 0), flushed = fl\<rparr>"
    and lines: "map (cache_line (2 ^ k)) fl
        = [(unat base + unat offset) div 2 ^ k
           ..< Suc ((unat base + unat offset + unat len - 1) div 2 ^ k)]"
    by blast
  have "clflush_data static sz base offset len
      = clflush_lines (2 ^ k) (static = 0) base offset len"
  proof (cases "static = 0")
    case True
    with size have "sz = 2 ^ k"
      by simp
    with k True show ?thesis
      by (simp add: clflush_data_def pow2_positive)
  next
    case False
    with size show ?thesis
      by (simp add: clflush_data_def)
  qed
  with run have result: "clflush_data static sz base offset len
      = Some \<lparr>cacheline_size = 2 ^ k, sysconf_called = (static = 0), flushed = fl\<rparr>"
    by simp
  have "0 < unat len"
    using len by (simp add: unat_gt_0)
  then have "lines_overlapping (2 ^ k) (unat base + unat offset) (unat len)
      = {(unat base + unat offset) div 2 ^ k
         .. (unat base + unat offset + unat len - 1) div 2 ^ k}"
    by (intro lines_overlapping_interval) simp_all
  moreover have "cache_line (2 ^ k) ` set fl
      = set (map (cache_line (2 ^ k)) fl)"
    by simp
  ultimately have "cache_line (2 ^ k) ` set fl
      = lines_overlapping (2 ^ k) (unat base + unat offset) (unat len)"
    by (simp only: lines set_upt atLeastLessThanSuc_atLeastAtMost)
  with result lines show ?thesis
    by simp
qed

theorem clflush_data_flushes_every_overlapping_line_witness:
  "(if (64 :: long) = 0 then (0 :: long) else 64) = 2 ^ 6 \<and> (6 :: nat) < 63
   \<and> (200 :: size_t) \<noteq> 0
   \<and> unat (100 :: uintptr_t) + unat (0 :: size_t) + unat (200 :: size_t) + 2 ^ 6 \<le> 2 ^ 64
   \<and> (\<exists>r. clflush_data 64 0 100 0 200 = Some r
          \<and> cacheline_size r = 64
          \<and> map (cache_line 64) (flushed r) = [1 ..< 5]
          \<and> cache_line 64 ` set (flushed r) = lines_overlapping 64 100 200)"
  using clflush_data_flushes_every_overlapping_line
    [where static = 64 and sz = 0 and k = 6 and len = 200 and base = 100 and offset = 0]
  by simp

subsection \<open>A range of length zero\<close>

lemma clflush_loop_once:
  fixes cur lastline L :: "64 word"
  assumes "unat lastline < unat cur + unat L" and "unat cur + unat L < 2 ^ 64"
  shows "clflush_loop cur L lastline acc = Some (acc @ [cur])"
proof -
  have "unat cur + unat L < 2 ^ LENGTH(64)"
    using assms(2) by simp
  then have "unat (cur + L) = unat cur + unat L"
    by (simp only: unat_add_lem)
  with assms(1) have "\<not> cur + L \<le> lastline"
    by (simp add: word_le_nat_alt)
  then show ?thesis
    by (subst clflush_loop.simps) simp
qed

lemma clflush_lines_zero_length:
  assumes k: "k < 64" and nonzero: "0 < unat base + unat offset"
    and range: "unat base + unat offset + 2 ^ k < 2 ^ 64"
  shows "clflush_lines (2 ^ k) asked base offset 0
      = Some \<lparr>cacheline_size = 2 ^ k, sysconf_called = asked, flushed = [base + offset]\<rparr>"
proof -
  define cur where "cur = base + offset"
  define lastline where "lastline = (cur - 1) OR (2 ^ k - 1)"
  have "unat base + unat offset < 2 ^ LENGTH(64)"
    using range by simp
  then have cur: "unat cur = unat base + unat offset"
    unfolding cur_def by (simp only: unat_add_lem)
  with nonzero have "cur \<noteq> 0"
    by (auto simp add: unat_eq_zero)
  then have last: "unat (cur - 1) = unat cur - 1"
    by (rule unat_minus_one)
  have lastline: "unat lastline = unat (cur - 1) div 2 ^ k * 2 ^ k + (2 ^ k - 1)"
    unfolding lastline_def using k by (rule unat_or_line_mask)
  have "unat (cur - 1) div 2 ^ k * 2 ^ k \<le> unat (cur - 1)"
    by simp
  moreover have "(0::nat) < 2 ^ k"
    by simp
  ultimately have "unat lastline < unat cur + 2 ^ k"
    using nonzero unfolding lastline last cur by linarith
  then have "clflush_loop cur (2 ^ k) lastline [] = Some ([] @ [cur])"
    using k range by (intro clflush_loop_once) (simp_all add: unat_pow2 cur)
  then show ?thesis
    by (simp add: clflush_lines_def cur_def lastline_def)
qed

lemma clflush_data_known_size:
  assumes "(if static = 0 then sz else static) = 2 ^ k" and "k < 63"
  shows "clflush_data static sz base offset len
      = clflush_lines (2 ^ k) (static = 0) base offset len"
proof (cases "static = 0")
  case True
  with assms have "sz = 2 ^ k" "\<not> sz \<le>s 0"
    by (simp_all add: pow2_positive)
  with True show ?thesis
    by (simp add: clflush_data_def)
next
  case False
  with assms show ?thesis
    by (simp add: clflush_data_def)
qed

text \<open>
  C10, as the code has it. With the cache-line size \<open>L = 2 ^ k\<close> known, a call with
  \<open>len = 0\<close> is not a no-op: the body of the do-while loop runs once before the
  condition is looked at. For \<open>base + offset\<close> other than 0 and more than \<open>L\<close> bytes
  below the top of the address space, the call returns after exactly one flush, that of
  address \<open>base + offset\<close> itself. The line flushed is therefore the line that contains
  \<open>base + offset\<close>, also when \<open>base + offset\<close> is line-aligned; the line before it
  only bounds the loop and is not flushed.
\<close>

theorem clflush_data_zero_length_flushes_own_line:
  assumes size: "(if static = 0 then sz else static) = 2 ^ k" and k: "k < 63"
    and nonzero: "0 < unat base + unat offset"
    and range: "unat base + unat offset + 2 ^ k < 2 ^ 64"
  shows "clflush_data static sz base offset 0
      = Some \<lparr>cacheline_size = 2 ^ k, sysconf_called = (static = 0),
              flushed = [base + offset]\<rparr>"
proof -
  from k have "k < 64"
    by simp
  then have "clflush_lines (2 ^ k) (static = 0) base offset 0
      = Some \<lparr>cacheline_size = 2 ^ k, sysconf_called = (static = 0),
              flushed = [base + offset]\<rparr>"
    using nonzero range by (rule clflush_lines_zero_length)
  with size k show ?thesis
    by (simp only: clflush_data_known_size)
qed

theorem clflush_data_zero_length_flushes_own_line_witness:
  "(if (64 :: long) = 0 then (0 :: long) else 64) = 2 ^ 6 \<and> (6 :: nat) < 63
   \<and> 0 < unat (64 :: uintptr_t) + unat (0 :: size_t)
   \<and> unat (64 :: uintptr_t) + unat (0 :: size_t) + 2 ^ 6 < 2 ^ 64
   \<and> clflush_data 64 0 64 0 0
       = Some \<lparr>cacheline_size = 64, sysconf_called = False, flushed = [64]\<rparr>"
  using clflush_data_zero_length_flushes_own_line
    [where static = 64 and sz = 0 and k = 6 and base = 64 and offset = 0]
  by simp

text \<open>
  The claim names, for a line-aligned \<open>base + offset\<close>, the line immediately before it as
  the line that is flushed. At \<open>base + offset = 64\<close> with 64-byte lines the one flush
  is that of address 64, in line 1; the line before it, the line of address 63, is line
  0.
\<close>

theorem clflush_data_zero_length_counterexample:
  "unat (64 + 0 :: uintptr_t) mod 64 = 0
   \<and> clflush_data 64 0 64 0 0
       = Some \<lparr>cacheline_size = 64, sysconf_called = False, flushed = [64]\<rparr>
   \<and> map (cache_line 64) [64] = [1]
   \<and> cache_line 64 (64 + 0 - 1) = 0"
  by (simp add: clflush_data_def clflush_lines_def clflush_loop.simps cache_line_def)

subsection \<open>Discovering the cache-line size\<close>

lemma clflush_data_cached:
  assumes "static \<noteq> 0" and "clflush_data static sz base offset len = Some r"
  shows "cacheline_size r = static \<and> \<not> sysconf_called r"
  using assms by (auto simp add: clflush_data_def clflush_lines_def Let_def)

lemma clflush_calls_cached:
  assumes "static \<noteq> 0" and "clflush_calls static calls = Some outs"
  shows "\<forall>r \<in> set outs. cacheline_size r = static \<and> \<not> sysconf_called r"
  using assms
proof (induction calls arbitrary: outs)
  case Nil
  then show ?case by simp
next
  case (Cons c calls)
  obtain sz base offset len where c: "c = (sz, base, offset, len)"
    by (cases c)
  from Cons.prems(2) obtain r rest where
    r: "clflush_data static sz base offset len = Some r"
    and rest: "clflush_calls (cacheline_size r) calls = Some rest"
    and outs: "outs = r # rest"
    by (auto simp add: c split: option.splits)
  from Cons.prems(1) r have head: "cacheline_size r = static \<and> \<not> sysconf_called r"
    by (rule clflush_data_cached)
  with rest have "clflush_calls static calls = Some rest"
    by simp
  with Cons.prems(1) have "\<forall>r \<in> set rest. cacheline_size r = static \<and> \<not> sysconf_called r"
    by (rule Cons.IH)
  with head outs show ?case
    by simp
qed

text \<open>
  C5, as the code has it. The cache-line size is cached from the first successful
  discovery on: in every run of calls that starts with a non-zero static, each call
  leaves the static as it was and does not ask \<open>sysconf\<close>. A call that finds the static
  at 0 asks \<open>sysconf\<close>; a positive answer becomes the static. An answer that is not
  positive makes this one call return without a flush, and it returns normally; the
  static stays 0, so nothing records the failure and the next call asks \<open>sysconf\<close>
  again.
\<close>

theorem clflush_data_caches_discovered_size:
  "(static \<noteq> 0 \<longrightarrow> clflush_calls static calls = Some outs \<longrightarrow>
      (\<forall>r \<in> set outs. cacheline_size r = static \<and> \<not> sysconf_called r))
   \<and> (\<not> sz \<le>s 0 \<longrightarrow> clflush_data 0 sz base offset len = Some r \<longrightarrow>
        cacheline_size r = sz \<and> sysconf_called r)
   \<and> (sz \<le>s 0 \<longrightarrow>
        clflush_data 0 sz base offset len
          = Some \<lparr>cacheline_size = 0, sysconf_called = True, flushed = []\<rparr>)"
proof (intro conjI impI)
  assume "static \<noteq> 0" and "clflush_calls static calls = Some outs"
  then show "\<forall>r \<in> set outs. cacheline_size r = static \<and> \<not> sysconf_called r"
    by (rule clflush_calls_cached)
next
  assume "\<not> sz \<le>s 0" and "clflush_data 0 sz base offset len = Some r"
  then show "cacheline_size r = sz" and "sysconf_called r"
    by (auto simp add: clflush_data_def clflush_lines_def Let_def)
next
  assume "sz \<le>s 0"
  then show "clflush_data 0 sz base offset len
      = Some \<lparr>cacheline_size = 0, sysconf_called = True, flushed = []\<rparr>"
    by (simp add: clflush_data_def)
qed

theorem clflush_data_caches_discovered_size_witness:
  "(64 :: long) \<noteq> 0
   \<and> clflush_calls 64 [(0, 100, 0, 200), (0, 128, 0, 1)]
       = Some [\<lparr>cacheline_size = 64, sysconf_called = False, flushed = [100, 164, 228, 292]\<rparr>,
               \<lparr>cacheline_size = 64, sysconf_called = False, flushed = [128]\<rparr>]
   \<and> list_all (\<lambda>r. cacheline_size r = 64 \<and> \<not> sysconf_called r)
        [\<lparr>cacheline_size = 64, sysconf_called = False, flushed = [100, 164, 228, 292]\<rparr>,
         \<lparr>cacheline_size = 64, sysconf_called = False, flushed = [128]\<rparr>]
   \<and> \<not> (64 :: long) \<le>s 0
   \<and> clflush_data 0 64 128 0 1
       = Some \<lparr>cacheline_size = 64, sysconf_called = True, flushed = [128]\<rparr>
   \<and> (0 :: long) \<le>s 0
   \<and> clflush_data 0 0 128 0 1
       = Some \<lparr>cacheline_size = 0, sysconf_called = True, flushed = []\<rparr>"
proof -
  define outs where "outs =
    [\<lparr>cacheline_size = 64, sysconf_called = False, flushed = [100, 164, 228, 292 :: uintptr_t]\<rparr>,
     \<lparr>cacheline_size = 64, sysconf_called = False, flushed = [128]\<rparr>]"
  define r where
    "r = \<lparr>cacheline_size = 64, sysconf_called = True, flushed = [128 :: uintptr_t]\<rparr>"
  have nonzero: "(64 :: long) \<noteq> 0"
    by simp
  have run: "clflush_calls 64 [(0, 100, 0, 200), (0, 128, 0, 1)] = Some outs"
    by (simp add: clflush_data_def clflush_lines_def clflush_loop.simps outs_def)
  have pos: "\<not> (64 :: long) \<le>s 0" and nonpos: "(0 :: long) \<le>s 0"
    by (simp_all add: word_sle_eq)
  have found: "clflush_data 0 64 128 0 1 = Some r"
    by (simp add: clflush_data_def clflush_lines_def clflush_loop.simps word_sle_eq r_def)
  note failing = clflush_data_caches_discovered_size
    [where static = 64 and calls = "[(0, 100, 0, 200), (0, 128, 0, 1)]" and outs = outs
       and sz = 0 and base = 128 and offset = 0 and len = 1 and r = r]
  note finding = clflush_data_caches_discovered_size
    [where static = 64 and calls = "[(0, 100, 0, 200), (0, 128, 0, 1)]" and outs = outs
       and sz = 64 and base = 128 and offset = 0 and len = 1 and r = r]
  from failing nonzero run
  have "\<forall>r \<in> set outs. cacheline_size r = 64 \<and> \<not> sysconf_called r"
    by blast
  then have cached: "list_all (\<lambda>r. cacheline_size r = 64 \<and> \<not> sysconf_called r) outs"
    by (simp only: list_all_iff)
  from failing nonpos
  have failed: "clflush_data 0 0 128 0 1
      = Some \<lparr>cacheline_size = 0, sysconf_called = True, flushed = []\<rparr>"
    by blast
  from finding pos found have "cacheline_size r = 64 \<and> sysconf_called r"
    by blast
  with nonzero run cached pos found nonpos failed show ?thesis
    unfolding outs_def r_def by (intro conjI)
qed

text \<open>
  The claim has a failed discovery latched, every later call a no-op and the size
  discovered once per process. In a process whose first two calls get a non-positive
  answer from \<open>sysconf\<close> and whose third call gets 64, the second call asks \<open>sysconf\<close>
  again although the first has failed, and the third call flushes.
\<close>

theorem clflush_data_failure_not_latched_counterexample:
  "clflush_calls 0 [(0, 128, 0, 1), (0, 128, 0, 1), (64, 128, 0, 1)]
     = Some [\<lparr>cacheline_size = 0, sysconf_called = True, flushed = []\<rparr>,
             \<lparr>cacheline_size = 0, sysconf_called = True, flushed = []\<rparr>,
             \<lparr>cacheline_size = 64, sysconf_called = True, flushed = [128]\<rparr>]"
  by (simp add: clflush_data_def clflush_lines_def clflush_loop.simps word_sle_eq)

section \<open>Properties of the XDNA driver\<close>

subsection \<open>The device heap\<close>

lemma and_not_mask_nat:
  fixes w :: "64 word"
  shows "unat (w AND NOT (mask k)) = unat w div 2 ^ k * 2 ^ k"
proof -
  have small: "unat w < 2 ^ 64"
    using unsigned_less [of w] by simp
  then have self: "take_bit 64 (unat w) = unat w"
    by (rule take_bit_nat_eq_self)
  have "w AND NOT (mask k) = push_bit k (drop_bit k w)"
    by (rule bit_eqI) (auto simp add: bit_simps)
  then have "unat (w AND NOT (mask k)) = take_bit 64 (push_bit k (drop_bit k (unat w)))"
    by (simp add: unsigned_push_bit_eq unsigned_drop_bit_eq self)
  also have "\<dots> = take_bit 64 (unat w div 2 ^ k * 2 ^ k)"
    by (simp add: push_bit_eq_mult drop_bit_eq_div)
  also have "\<dots> = unat w div 2 ^ k * 2 ^ k"
  proof (rule take_bit_nat_eq_self)
    have "unat w div 2 ^ k * 2 ^ k \<le> unat w"
      by simp
    also note small
    finally show "unat w div 2 ^ k * 2 ^ k < 2 ^ 64" .
  qed
  finally show ?thesis .
qed

lemma unat_dev_heap_size: "unat dev_heap_size = 2 ^ 26"
  by (simp add: dev_heap_size_def)

lemma unat_dev_heap_align: "unat dev_heap_align = 2 ^ 26"
  by (simp add: dev_heap_align_def)

lemma unat_dev_heap_parent_size: "unat dev_heap_parent_size = 2 ^ 27"
  by (simp add: dev_heap_parent_size_def dev_heap_size_def dev_heap_align_def)

lemma AlignUp_dev_heap:
  assumes "unat p + 2 ^ 27 \<le> 2 ^ 64"
  shows "unat (AlignUp p dev_heap_align) = (unat p + (2 ^ 26 - 1)) div 2 ^ 26 * 2 ^ 26"
proof -
  have align: "dev_heap_align - 1 = mask 26"
    by (simp add: dev_heap_align_def mask_eq_exp_minus_1)
  have m: "unat (mask 26 :: 64 word) = 2 ^ 26 - 1"
    by (simp add: mask_eq_exp_minus_1)
  have "unat p + unat (mask 26 :: 64 word) < 2 ^ LENGTH(64)"
    using assms by (simp add: m)
  then have "unat (p + mask 26) = unat p + unat (mask 26 :: 64 word)"
    by (simp only: unat_add_lem)
  then show ?thesis
    by (simp only: AlignUp_def align and_not_mask_nat m)
qed

lemma round_up_facts:
  fixes x a :: nat
  assumes a: "0 < a"
  shows "(x + (a - 1)) div a * a mod a = 0"
    and "x \<le> (x + (a - 1)) div a * a"
    and "(x + (a - 1)) div a * a \<le> x + (a - 1)"
    and "x \<le> y \<Longrightarrow> y mod a = 0 \<Longrightarrow> (x + (a - 1)) div a * a \<le> y"
proof -
  show "(x + (a - 1)) div a * a mod a = 0"
    by simp
  show up: "(x + (a - 1)) div a * a \<le> x + (a - 1)"
    by simp
  have "x + (a - 1) < a + (x + (a - 1)) div a * a"
    using a by (rule dividend_less_div_times)
  with a show "x \<le> (x + (a - 1)) div a * a"
    by linarith
  assume xy: "x \<le> y" and y: "y mod a = 0"
  from y have "a dvd y"
    by (simp add: mod_eq_0_iff_dvd)
  then obtain q where "y = a * q"
    by (rule dvdE)
  then have q: "y = q * a"
    by (simp add: mult.commute)
  have "(x + (a - 1)) div a \<le> (q * a + (a - 1)) div a"
    using xy by (intro div_le_mono) (simp add: q)
  also have "\<dots> = q + (a - 1) div a"
    using a by (intro div_mult_self3) simp
  also have "\<dots> = q"
    using a by simp
  finally have "(x + (a - 1)) div a \<le> q" .
  then have "(x + (a - 1)) div a * a \<le> q * a"
    by (rule mult_le_mono1)
  then show "(x + (a - 1)) div a * a \<le> y"
    unfolding q .
qed

text \<open>
  C4. After a successful \<open>Init\<close>, whatever base address \<open>p\<close> the OS chose for the
  parent mapping (a mapping of \<open>dev_heap_parent_size\<close> bytes inside the 64-bit address
  space), \<open>dev_heap_parent\<close> is \<open>p\<close>, \<open>dev_heap_aligned\<close> is a multiple of 64 MiB, the
  heap size and alignment are 64 MiB, and the \<open>dev_heap_size\<close> bytes from
  \<open>dev_heap_aligned\<close> on lie within the parent mapping. \<open>dev_heap_aligned\<close> is the first
  multiple of 64 MiB in the mapping.
\<close>

theorem Init_device_heap_invariant:
  assumes init: "Init queried_version env d = (Success, d')"
    and mapping: "parent_mapping env = Some p"
    and valid: "unat p + unat dev_heap_parent_size \<le> 2 ^ 64"
  shows "dev_heap_parent d' = p
    \<and> unat (dev_heap_aligned d') mod (64 * 1024 * 1024) = 0
    \<and> unat dev_heap_size = 64 * 1024 * 1024
    \<and> unat dev_heap_align = 64 * 1024 * 1024
    \<and> unat p \<le> unat (dev_heap_aligned d')
    \<and> unat (dev_heap_aligned d') + unat dev_heap_size \<le> unat p + unat dev_heap_parent_size
    \<and> (\<forall>a. p \<le> a \<and> unat a mod (64 * 1024 * 1024) = 0 \<longrightarrow> dev_heap_aligned d' \<le> a)"
proof -
  from init mapping have parent: "dev_heap_parent d' = p"
    and aligned: "dev_heap_aligned d' = AlignUp p dev_heap_align"
    by (auto simp add: Init_def InitDeviceHeap_def split: option.splits if_splits)
  have M: "(64 * 1024 * 1024 :: nat) = 2 ^ 26"
    by simp
  have pos: "(0 :: nat) < 2 ^ 26"
    by simp
  from valid have "unat p + 2 ^ 27 \<le> 2 ^ 64"
    by (simp only: unat_dev_heap_parent_size)
  then have up: "unat (dev_heap_aligned d') = (unat p + (2 ^ 26 - 1)) div 2 ^ 26 * 2 ^ 26"
    unfolding aligned by (rule AlignUp_dev_heap)
  have "unat (dev_heap_aligned d') mod 2 ^ 26 = 0"
    unfolding up using pos by (rule round_up_facts)
  moreover have lower: "unat p \<le> unat (dev_heap_aligned d')"
    unfolding up using pos by (rule round_up_facts)
  moreover have "unat (dev_heap_aligned d') \<le> unat p + (2 ^ 26 - 1)"
    unfolding up using pos by (rule round_up_facts)
  then have "unat (dev_heap_aligned d') + unat dev_heap_size
      \<le> unat p + unat dev_heap_parent_size"
    by (simp add: unat_dev_heap_size unat_dev_heap_parent_size)
  moreover have "dev_heap_aligned d' \<le> a" if "p \<le> a \<and> unat a mod (64 * 1024 * 1024) = 0" for a
  proof -
    from that have "unat p \<le> unat a" and "unat a mod 2 ^ 26 = 0"
      by (simp_all add: word_le_nat_alt)
    with pos have "(unat p + (2 ^ 26 - 1)) div 2 ^ 26 * 2 ^ 26 \<le> unat a"
      by (rule round_up_facts)
    then show ?thesis
      by (simp only: word_le_nat_alt up)
  qed
  ultimately show ?thesis
    using parent by (simp add: unat_dev_heap_size unat_dev_heap_align)
qed

theorem Init_device_heap_invariant_witness:
  "Init (Some \<lparr>major = 1, minor = 0\<rparr>)
        \<lparr>parent_mapping = Some 139637976731648, registered = True\<rparr>
        (XdnaDriver_new ''/dev/accel/accel0'')
     = (Success,
        (XdnaDriver_new ''/dev/accel/accel0'')
          \<lparr>version := \<lparr>major = 1, minor = 0\<rparr>,
           dev_heap_parent := 139637976731648, dev_heap_aligned := 139638043836416\<rparr>)
   \<and> unat (139637976731648 :: uintptr_t) + unat dev_heap_parent_size \<le> 2 ^ 64
   \<and> unat (139638043836416 :: uintptr_t) mod (64 * 1024 * 1024) = 0
   \<and> unat (139637976731648 :: uintptr_t) \<le> unat (139638043836416 :: uintptr_t)
   \<and> unat (139638043836416 :: uintptr_t) + unat dev_heap_size
       \<le> unat (139637976731648 :: uintptr_t) + unat dev_heap_parent_size"
proof -
  define env where "env = \<lparr>parent_mapping = Some (139637976731648 :: uintptr_t), registered = True\<rparr>"
  define d where "d = XdnaDriver_new ''/dev/accel/accel0''"
  define d' where "d' = d\<lparr>version := \<lparr>major = 1, minor = 0\<rparr>,
      dev_heap_parent := 139637976731648, dev_heap_aligned := 139638043836416\<rparr>"
  have run: "Init (Some \<lparr>major = 1, minor = 0\<rparr>) env d = (Success, d')"
    by (simp add: Init_def InitDeviceHeap_def env_def d'_def AlignUp_def dev_heap_align_def)
  have mapping: "parent_mapping env = Some 139637976731648"
    by (simp add: env_def)
  have valid: "unat (139637976731648 :: uintptr_t) + unat dev_heap_parent_size \<le> 2 ^ 64"
    by (simp add: unat_dev_heap_parent_size)
  have aligned: "dev_heap_aligned d' = 139638043836416"
    by (simp add: d'_def)
  from Init_device_heap_invariant [OF run mapping valid] run valid
  show ?thesis
    unfolding aligned env_def d_def d'_def by simp
qed

text \<open>
  C8. \<open>GetDevHeapByteSize()\<close> is the constant \<open>dev_heap_size\<close>, 64 MiB. It takes no
  driver object, so no instance state reaches it.
\<close>

theorem GetDevHeapByteSize_fixed:
  "GetDevHeapByteSize = dev_heap_size \<and> unat GetDevHeapByteSize = 64 * 1024 * 1024"
  by (simp add: GetDevHeapByteSize_def dev_heap_size_def)

subsection \<open>The handle tables\<close>

lemma tables_inverse_record_mapping:
  assumes inv: "tables_inverse d"
    and h: "vmem_handle_mappings d h = None" and a: "vmem_addr_mappings d a = None"
  shows "tables_inverse (record_mapping h a d)"
  unfolding tables_inverse_def
proof (intro allI)
  fix h' a'
  from inv have sync: "(vmem_handle_mappings d h' = Some a') = (vmem_addr_mappings d a' = Some h')"
    by (simp add: tables_inverse_def)
  from inv have "(vmem_handle_mappings d h = Some a') = (vmem_addr_mappings d a' = Some h)"
    by (simp add: tables_inverse_def)
  with h have no_h: "vmem_addr_mappings d a' \<noteq> Some h"
    by simp
  from inv have "(vmem_handle_mappings d h' = Some a) = (vmem_addr_mappings d a = Some h')"
    by (simp add: tables_inverse_def)
  with a have no_a: "vmem_handle_mappings d h' \<noteq> Some a"
    by simp
  show "(vmem_handle_mappings (record_mapping h a d) h' = Some a')
      = (vmem_addr_mappings (record_mapping h a d) a' = Some h')"
    using sync no_h no_a by (auto simp add: record_mapping_def)
qed

lemma tables_inverse_remove_mapping:
  assumes inv: "tables_inverse d"
    and pair: "vmem_addr_mappings d a = Some h"
  shows "tables_inverse (remove_mapping h a d)"
  unfolding tables_inverse_def
proof (intro allI)
  fix h' a'
  from inv have sync: "(vmem_handle_mappings d h' = Some a') = (vmem_addr_mappings d a' = Some h')"
    by (simp add: tables_inverse_def)
  from inv pair have pair': "vmem_handle_mappings d h = Some a"
    by (simp add: tables_inverse_def)
  show "(vmem_handle_mappings (remove_mapping h a d) h' = Some a')
      = (vmem_addr_mappings (remove_mapping h a d) a' = Some h')"
    using sync pair pair' by (auto simp add: remove_mapping_def)
qed

lemma tables_inverse_step:
  assumes "tables_inverse d" and "fresh_call c d"
  shows "tables_inverse (driver_step c d)"
proof (cases c)
  case (Allocate answer)
  with assms show ?thesis
    by (cases answer)
      (simp_all add: AllocateMemory_def fresh_answer_def tables_inverse_record_mapping)
next
  case (Free mem size')
  with assms show ?thesis
    by (simp add: FreeMemory_def tables_inverse_remove_mapping split: option.splits)
next
  case (Import answer)
  with assms show ?thesis
    by (cases answer)
      (simp_all add: ImportDMABuf_def fresh_answer_def tables_inverse_record_mapping)
next
  case (Release sh)
  show ?thesis
  proof (cases "vmem_handle_mappings d (ucast (handle sh))")
    case None
    with Release assms show ?thesis
      by (simp add: ReleaseShareableHandle_def)
  next
    case (Some a)
    with assms(1) have "vmem_addr_mappings d a = Some (ucast (handle sh))"
      by (simp add: tables_inverse_def)
    with assms(1) have "tables_inverse (remove_mapping (ucast (handle sh)) a d)"
      by (rule tables_inverse_remove_mapping)
    with Release Some show ?thesis
      by (simp add: ReleaseShareableHandle_def)
  qed
qed

lemma tables_inverse_states:
  assumes "tables_inverse d" and "kernel_fresh d calls"
  shows "\<forall>d' \<in> set (driver_states d calls). tables_inverse d'"
  using assms
proof (induction calls arbitrary: d)
  case Nil
  then show ?case by simp
next
  case (Cons c calls)
  from Cons.prems have now: "tables_inverse (driver_step c d)"
    by (simp add: tables_inverse_step)
  moreover from Cons.prems have "kernel_fresh (driver_step c d) calls"
    by simp
  ultimately have "\<forall>d' \<in> set (driver_states (driver_step c d) calls). tables_inverse d'"
    by (rule Cons.IH)
  with now show ?case
    by simp
qed

lemma tables_inverse_new: "tables_inverse (XdnaDriver_new name)"
  by (simp add: tables_inverse_def XdnaDriver_new_def Driver.extend_def)

lemma tables_inverse_dom_ran:
  assumes "tables_inverse d"
  shows "dom (vmem_handle_mappings d) = ran (vmem_addr_mappings d)"
    and "dom (vmem_addr_mappings d) = ran (vmem_handle_mappings d)"
  using assms by (auto simp add: tables_inverse_def dom_def ran_def)

text \<open>
  C3. On a newly constructed driver, after every call of every sequence of allocations,
  frees, imports and releases in which the kernel driver answers with handles and
  addresses that are not live, the handle-to-address table and the address-to-handle
  table are inverse to each other: \<open>h\<close> maps to \<open>a\<close> in the one exactly when \<open>a\<close> maps
  to \<open>h\<close> in the other. The handles of the one table are the values of the other and
  the addresses of the one are the values of the other, so none occurs in one table
  only.
\<close>

theorem handle_tables_stay_inverse:
  assumes "kernel_fresh (XdnaDriver_new name) calls"
  shows "\<forall>d \<in> set (driver_states (XdnaDriver_new name) calls).
           tables_inverse d
           \<and> dom (vmem_handle_mappings d) = ran (vmem_addr_mappings d)
           \<and> dom (vmem_addr_mappings d) = ran (vmem_handle_mappings d)"
  using tables_inverse_states [OF tables_inverse_new assms]
  by (simp add: tables_inverse_dom_ran)

theorem handle_tables_stay_inverse_witness:
  "kernel_fresh (XdnaDriver_new ''/dev/accel/accel0'')
     [Allocate (BoCreated 1 4096), Import (BoCreated 2 8192), Free 4096 4096,
      Allocate (BoFailed OutOfMemory), Release \<lparr>handle = 2\<rparr>, Free 4096 4096]
   \<and> list_all
        (\<lambda>d. tables_inverse d
           \<and> dom (vmem_handle_mappings d) = ran (vmem_addr_mappings d)
           \<and> dom (vmem_addr_mappings d) = ran (vmem_handle_mappings d))
        (driver_states (XdnaDriver_new ''/dev/accel/accel0'')
          [Allocate (BoCreated 1 4096), Import (BoCreated 2 8192), Free 4096 4096,
           Allocate (BoFailed OutOfMemory), Release \<lparr>handle = 2\<rparr>, Free 4096 4096])"
proof -
  have fresh: "kernel_fresh (XdnaDriver_new ''/dev/accel/accel0'')
     [Allocate (BoCreated 1 4096), Import (BoCreated 2 8192), Free 4096 4096,
      Allocate (BoFailed OutOfMemory), Release \<lparr>handle = 2\<rparr>, Free 4096 4096]"
    by (simp add: XdnaDriver_new_def Driver.extend_def AllocateMemory_def ImportDMABuf_def
        FreeMemory_def ReleaseShareableHandle_def record_mapping_def remove_mapping_def
        fresh_answer_def)
  from fresh handle_tables_stay_inverse [OF fresh] show ?thesis
    by (simp only: list_all_iff simp_thms)
qed

end
